theory Spec2Isabelle
  imports Main "HOL-Library.Word"
begin

section \<open>DuckDB backup script: a shallow embedding of \<open>backup_duckdb.py\<close>\<close>

text \<open>
  The script copies a database file to a backup location, either with \<open>shutil.copy2\<close>
  (\<open>backup_with_cp\<close>) or by feeding an \<open>ATTACH\<close>/\<open>COPY FROM DATABASE\<close> script to the
  \<open>duckdb\<close> command-line client (\<open>backup_with_attach\<close>). Everything it does is an effect on
  its environment, so the embedding threads an explicit \<open>world\<close> through every function:
  the file system, the current directory, the wall clock, the installed \<open>duckdb\<close> program
  and an append-only trace of what the script logged, printed and asked the operating
  system to do.

  Strings are byte strings, as the operating system sees a path. What the model leaves
  out: symbolic and hard links, special files, resource exhaustion (a full disk, an I/O
  error), and asynchronous signals.
\<close>

subsection \<open>Pure paths (\<open>pathlib.PurePosixPath\<close>)\<close>

text \<open>
  \<open>Path(s)\<close> splits off the root as \<open>posixpath.splitroot\<close> does (exactly two leading
  slashes are kept, any other number collapses to one) and keeps the components that are
  neither empty nor \<open>.\<close>.
\<close>

record pure_path =
  anchor :: string
  names :: "string list"

fun split_sep :: "string \<Rightarrow> string list" where
  "split_sep [] = [[]]"
| "split_sep (c # cs) =
     (if c = CHR ''/'' then [] # split_sep cs
      else (case split_sep cs of [] \<Rightarrow> [[c]] | x # xs \<Rightarrow> (c # x) # xs))"

definition components :: "string \<Rightarrow> string list" where
  "components s = filter (\<lambda>x. x \<noteq> [] \<and> x \<noteq> ''.'') (split_sep s)"

definition Path :: "string \<Rightarrow> pure_path" where
  "Path s =
     (if take 1 s \<noteq> ''/'' then \<lparr>anchor = [], names = components s\<rparr>
      else if take 1 (drop 1 s) \<noteq> ''/'' \<or> take 1 (drop 2 s) = ''/''
        then \<lparr>anchor = ''/'', names = components (drop 1 s)\<rparr>
      else \<lparr>anchor = ''//'', names = components (drop 2 s)\<rparr>)"

fun join_sep :: "string list \<Rightarrow> string" where
  "join_sep [] = []"
| "join_sep [x] = x"
| "join_sep (x # y # ys) = x @ ''/'' @ join_sep (y # ys)"

definition str_path :: "pure_path \<Rightarrow> string" where
  "str_path p = (if anchor p = [] \<and> names p = [] then ''.'' else anchor p @ join_sep (names p))"

definition parent :: "pure_path \<Rightarrow> pure_path" where
  "parent p = (if names p = [] then p else p\<lparr>names := butlast (names p)\<rparr>)"

definition joinpath :: "pure_path \<Rightarrow> string \<Rightarrow> pure_path" where
  "joinpath p seg =
     (let q = Path seg in if anchor q \<noteq> [] then q else p\<lparr>names := names p @ names q\<rparr>)"

subsection \<open>Formatting numbers and times\<close>

definition digit_char :: "nat \<Rightarrow> char" where
  "digit_char d = ''0123456789'' ! (d mod 10)"

fun zero_pad :: "nat \<Rightarrow> nat \<Rightarrow> string" where
  "zero_pad 0 k = []"
| "zero_pad (Suc w) k = zero_pad w (k div 10) @ [digit_char k]"

fun show_nat :: "nat \<Rightarrow> string" where
  "show_nat n = (if n < 10 then [digit_char n] else show_nat (n div 10) @ [digit_char n])"

declare show_nat.simps [simp del]

text \<open>
  \<open>f"{size / (1024 * 1024):.2f}"\<close>: the quotient by \<open>2 ^ 20\<close> is an exact float for every
  size below \<open>2 ^ 53\<close>, and the format rounds it to the nearest hundredth, ties to even.
\<close>

definition format_mb :: "nat \<Rightarrow> string" where
  "format_mb size_bytes =
     (let q = (size_bytes * 100) div 1048576;
          r = (size_bytes * 100) mod 1048576;
          h = (if r > 524288 \<or> (r = 524288 \<and> odd q) then q + 1 else q)
      in show_nat (h div 100) @ ''.'' @ zero_pad 2 (h mod 100))"

record datetime =
  year :: nat
  month :: nat
  day :: nat
  hour :: nat
  minute :: nat
  second :: nat

definition valid_datetime :: "datetime \<Rightarrow> bool" where
  "valid_datetime t \<longleftrightarrow>
     1 \<le> year t \<and> year t \<le> 9999 \<and> 1 \<le> month t \<and> month t \<le> 12 \<and>
     1 \<le> day t \<and> day t \<le> 31 \<and> hour t < 24 \<and> minute t < 60 \<and> second t < 60"

text \<open>\<open>strftime("%Y%m%d-%H%M%S")\<close>.\<close>

definition strftime :: "datetime \<Rightarrow> string" where
  "strftime t =
     zero_pad 4 (year t) @ zero_pad 2 (month t) @ zero_pad 2 (day t) @ ''-'' @
     zero_pad 2 (hour t) @ zero_pad 2 (minute t) @ zero_pad 2 (second t)"

subsection \<open>The environment\<close>

text \<open>
  A location is the list of names from the root directory down. Every entry carries what
  the process running the script is allowed to do with it: read it, write it (for a
  directory: add and remove entries), search it (pass through a directory), whether the
  entry belongs to the process's user, and whether a directory is sticky (its entries can
  be removed only by their owner or by the directory's owner). A regular file also
  carries its bytes.
\<close>

type_synonym loc = "string list"

type_synonym byte = "8 word"

record permissions =
  readable :: bool
  writable :: bool
  searchable :: bool
  owned :: bool
  sticky :: bool

datatype node = File (content: "byte list") (perms: permissions) | Dir (perms: permissions)

type_synonym filesystem = "loc \<Rightarrow> node option"

definition full_access :: permissions where
  "full_access = \<lparr>readable = True, writable = True, searchable = True, owned = True, sticky = False\<rparr>"

text \<open>
  The exceptions the modelled calls raise. \<open>OSError\<close> stands for the plain \<open>OSError\<close> of a
  name that is too long (\<open>ENAMETOOLONG\<close>), \<open>ValueError\<close> for the one of a path with an
  embedded null byte. All of them derive from \<open>Exception\<close> except \<open>SystemExit\<close>, which
  \<open>argparse\<close> raises and \<open>except Exception\<close> does not catch.
\<close>

datatype exn =
    FileNotFoundError | FileExistsError | NotADirectoryError | IsADirectoryError
  | PermissionError | OSError | ValueError | SameFileError | TimeoutExpired | SystemExit nat

fun is_Exception :: "exn \<Rightarrow> bool" where
  "is_Exception (SystemExit _) = False"
| "is_Exception _ = True"

text \<open>The text of \<open>{e}\<close> in a log message is represented by the exception's class name.\<close>

fun exn_text :: "exn \<Rightarrow> string" where
  "exn_text FileNotFoundError = ''FileNotFoundError''"
| "exn_text FileExistsError = ''FileExistsError''"
| "exn_text NotADirectoryError = ''NotADirectoryError''"
| "exn_text IsADirectoryError = ''IsADirectoryError''"
| "exn_text PermissionError = ''PermissionError''"
| "exn_text OSError = ''OSError''"
| "exn_text ValueError = ''ValueError''"
| "exn_text SameFileError = ''SameFileError''"
| "exn_text TimeoutExpired = ''TimeoutExpired''"
| "exn_text (SystemExit n) = show_nat n"

record completed_process =
  returncode :: int
  stdout :: string
  stderr :: string

text \<open>
  What running an external program does is not the script's to decide: the world holds,
  for each command line, standard input and file system, either \<open>Missing\<close> (no such
  executable), \<open>Forbidden\<close> (it may not be executed) or a process: the second after which
  it exits by itself (\<open>None\<close>: never), what it reports then, and the file system it leaves
  after each number of seconds.
\<close>

datatype process =
    Missing
  | Forbidden
  | Process (exit_after: "nat option") (outcome: completed_process) (fs_at: "nat \<Rightarrow> filesystem")

datatype level = INFO | WARNING | ERROR

text \<open>
  The trace records what the script logged, what it printed on standard output (\<open>Helped\<close>
  stands for the help message of \<open>argparse\<close>) and every call by which it asked the
  operating system to change something, with the arguments of the call.
\<close>

datatype event =
    Logged level string
  | Printed string
  | Helped
  | Mkdir pure_path
  | Unlink pure_path
  | Copy pure_path pure_path
  | Spawn "string list" string

record world =
  fs :: filesystem
  cwd :: loc
  clock :: datetime
  execute :: "string list \<Rightarrow> string \<Rightarrow> filesystem \<Rightarrow> process"
  trace :: "event list"
  waited :: nat

text \<open>
  A computation takes the world and gives the world back with a value or a raised
  exception; what it did before raising stays done.
\<close>

type_synonym 'a prog = "world \<Rightarrow> (exn + 'a) \<times> world"

definition ret :: "'a \<Rightarrow> 'a prog" where
  "ret a w = (Inr a, w)"

definition raise :: "exn \<Rightarrow> 'a prog" where
  "raise e w = (Inl e, w)"

definition and_then :: "'a prog \<Rightarrow> ('a \<Rightarrow> 'b prog) \<Rightarrow> 'b prog" where
  "and_then m f w = (case m w of (Inl e, w') \<Rightarrow> (Inl e, w') | (Inr a, w') \<Rightarrow> f a w')"

text \<open>\<open>try: body except Exception as e: handler(e)\<close>.\<close>

definition try_except :: "'a prog \<Rightarrow> (exn \<Rightarrow> 'a prog) \<Rightarrow> 'a prog" where
  "try_except body handler w =
     (case body w of
        (Inl e, w') \<Rightarrow> if is_Exception e then handler e w' else (Inl e, w')
      | (Inr a, w') \<Rightarrow> (Inr a, w'))"

definition record_event :: "event \<Rightarrow> world \<Rightarrow> world" where
  "record_event ev w = w\<lparr>trace := trace w @ [ev]\<rparr>"

definition logger :: "level \<Rightarrow> string \<Rightarrow> unit prog" where
  "logger l msg w = (Inr (), record_event (Logged l msg) w)"

definition print :: "string \<Rightarrow> unit prog" where
  "print s w = (Inr (), record_event (Printed s) w)"

subsection \<open>How the operating system resolves a path\<close>

text \<open>
  The kernel walks a path name by name. The directory it stands in must exist, be a
  directory and be searchable before the next name is looked at; \<open>..\<close> leads to the parent
  directory (the root is its own parent); a name of more than 255 bytes is refused. The
  walk ends at a location, which may be empty. Before the walk, Python refuses a path
  with a null byte and the kernel one of 4096 bytes or more.
\<close>

definition name_max :: nat where
  "name_max = 255"

definition path_max :: nat where
  "path_max = 4096"

fun walk :: "filesystem \<Rightarrow> loc \<Rightarrow> string list \<Rightarrow> exn + loc" where
  "walk f cur [] = Inr cur"
| "walk f cur (n # ns) =
     (case f cur of
        None \<Rightarrow> Inl FileNotFoundError
      | Some (File _ _) \<Rightarrow> Inl NotADirectoryError
      | Some (Dir m) \<Rightarrow>
          if \<not> searchable m then Inl PermissionError
          else if n = ''..'' then walk f (butlast cur) ns
          else if name_max < length n then Inl OSError
          else walk f (cur @ [n]) ns)"

definition lookup :: "world \<Rightarrow> pure_path \<Rightarrow> exn + loc" where
  "lookup w p =
     (if CHR 0x00 \<in> set (str_path p) then Inl ValueError
      else if path_max \<le> length (str_path p) then Inl OSError
      else walk (fs w) (if anchor p = [] then cwd w else []) (names p))"

text \<open>
  A path whose last name is missing, \<open>..\<close> or the root itself names a directory that
  already has an entry in its parent: the kernel refuses to create or remove it whatever
  the permissions are.
\<close>

definition names_no_entry :: "pure_path \<Rightarrow> bool" where
  "names_no_entry p \<longleftrightarrow> names p = [] \<or> last (names p) = ''..''"

subsection \<open>File-system calls\<close>

text \<open>
  \<open>Path.resolve()\<close> (not strict): without symbolic links it removes \<open>..\<close> from the
  absolute path textually, whether the directories exist or not, and raises only for a
  null byte.
\<close>

fun collapse :: "loc \<Rightarrow> string list \<Rightarrow> loc" where
  "collapse acc [] = acc"
| "collapse acc (n # ns) = collapse (if n = ''..'' then butlast acc else acc @ [n]) ns"

definition resolve :: "world \<Rightarrow> pure_path \<Rightarrow> pure_path" where
  "resolve w p =
     \<lparr>anchor = ''/'', names = collapse (if anchor p = [] then cwd w else []) (names p)\<rparr>"

definition path_resolve :: "pure_path \<Rightarrow> pure_path prog" where
  "path_resolve p w =
     (if CHR 0x00 \<in> set (str_path p) then (Inl ValueError, w) else (Inr (resolve w p), w))"

text \<open>\<open>os.stat\<close>.\<close>

definition os_stat :: "world \<Rightarrow> pure_path \<Rightarrow> exn + node" where
  "os_stat w p =
     (case lookup w p of
        Inl e \<Rightarrow> Inl e
      | Inr l \<Rightarrow> (case fs w l of None \<Rightarrow> Inl FileNotFoundError | Some n \<Rightarrow> Inr n))"

fun st_size :: "node \<Rightarrow> nat" where
  "st_size (File bs _) = length bs"
| "st_size (Dir _) = 4096"

definition path_stat :: "pure_path \<Rightarrow> nat prog" where
  "path_stat p w = (case os_stat w p of Inl e \<Rightarrow> (Inl e, w) | Inr n \<Rightarrow> (Inr (st_size n), w))"

text \<open>
  \<open>Path.exists()\<close> and \<open>Path.is_dir()\<close> answer \<open>False\<close> when \<open>stat\<close> fails because an entry
  is missing or is not a directory, or because of a null byte; any other error of \<open>stat\<close>
  is raised. \<open>os.path.isdir\<close> answers \<open>False\<close> on every error.
\<close>

definition ignored :: "exn \<Rightarrow> bool" where
  "ignored e \<longleftrightarrow> e = FileNotFoundError \<or> e = NotADirectoryError \<or> e = ValueError"

definition path_exists :: "pure_path \<Rightarrow> bool prog" where
  "path_exists p w =
     (case os_stat w p of
        Inl e \<Rightarrow> if ignored e then (Inr False, w) else (Inl e, w)
      | Inr n \<Rightarrow> (Inr True, w))"

definition path_is_dir :: "pure_path \<Rightarrow> bool prog" where
  "path_is_dir p w =
     (case os_stat w p of
        Inl e \<Rightarrow> if ignored e then (Inr False, w) else (Inl e, w)
      | Inr (File _ _) \<Rightarrow> (Inr False, w)
      | Inr (Dir _) \<Rightarrow> (Inr True, w))"

definition os_path_isdir :: "world \<Rightarrow> pure_path \<Rightarrow> bool" where
  "os_path_isdir w p = (case os_stat w p of Inr (Dir _) \<Rightarrow> True | _ \<Rightarrow> False)"

text \<open>\<open>exists_in w p\<close>: in the world \<open>w\<close>, \<open>Path.exists()\<close> answers \<open>True\<close> for \<open>p\<close>.\<close>

definition exists_in :: "world \<Rightarrow> pure_path \<Rightarrow> bool" where
  "exists_in w p \<longleftrightarrow> fst (path_exists p w) = Inr True"

definition is_dir :: "filesystem \<Rightarrow> loc \<Rightarrow> bool" where
  "is_dir f l \<longleftrightarrow> (case f l of Some (Dir _) \<Rightarrow> True | _ \<Rightarrow> False)"

text \<open>
  \<open>os.mkdir\<close>: the path is resolved first, then an existing entry is reported, then the
  permission to write the parent directory is checked. The new directory belongs to the
  process, with the access the process's own creation mask leaves it (taken to be all).
\<close>

definition os_mkdir :: "pure_path \<Rightarrow> unit prog" where
  "os_mkdir p w =
     (let w' = record_event (Mkdir p) w in
      case lookup w p of
        Inl e \<Rightarrow> (Inl e, w')
      | Inr l \<Rightarrow>
          if names_no_entry p \<or> fs w l \<noteq> None then (Inl FileExistsError, w')
          else (case fs w (butlast l) of
                  Some (Dir m) \<Rightarrow>
                    if writable m then (Inr (), w'\<lparr>fs := (fs w)(l \<mapsto> Dir full_access)\<rparr>)
                    else (Inl PermissionError, w')
                | _ \<Rightarrow> (Inl FileNotFoundError, w')))"

text \<open>
  \<open>Path.mkdir(parents=False, exist_ok=True)\<close>: a missing parent is an error, and so is a
  null byte (not an \<open>OSError\<close>); any other \<open>OSError\<close> is swallowed when \<open>is_dir()\<close> answers
  \<open>True\<close> afterwards.
\<close>

definition mkdir_exist_ok :: "pure_path \<Rightarrow> unit prog" where
  "mkdir_exist_ok p w =
     (case os_mkdir p w of
        (Inl e, w') \<Rightarrow>
          if e = FileNotFoundError \<or> e = ValueError then (Inl e, w')
          else (case path_is_dir p w' of
                  (Inl e', w'') \<Rightarrow> (Inl e', w'')
                | (Inr found, w'') \<Rightarrow> if found then (Inr (), w'') else (Inl e, w''))
      | (Inr u, w') \<Rightarrow> (Inr u, w'))"

text \<open>
  \<open>Path.mkdir(parents=True, exist_ok=True)\<close> on the path with the anchor \<open>a\<close> and the names
  \<open>rev rnames\<close>: when the parent is missing, the parent is made the same way and the
  directory is then made without \<open>parents\<close>. A path that is its own parent (no names
  left) raises.
\<close>

fun mkdir_parents :: "string \<Rightarrow> string list \<Rightarrow> unit prog" where
  "mkdir_parents a [] w = mkdir_exist_ok \<lparr>anchor = a, names = []\<rparr> w"
| "mkdir_parents a (n # ns) w =
     (case os_mkdir \<lparr>anchor = a, names = rev (n # ns)\<rparr> w of
        (Inl e, w1) \<Rightarrow>
          if e = FileNotFoundError then
            (case mkdir_parents a ns w1 of
               (Inl e2, w2) \<Rightarrow> (Inl e2, w2)
             | (Inr _, w2) \<Rightarrow> mkdir_exist_ok \<lparr>anchor = a, names = rev (n # ns)\<rparr> w2)
          else if e = ValueError then (Inl e, w1)
          else (case path_is_dir \<lparr>anchor = a, names = rev (n # ns)\<rparr> w1 of
                  (Inl e', w2) \<Rightarrow> (Inl e', w2)
                | (Inr found, w2) \<Rightarrow> if found then (Inr (), w2) else (Inl e, w2))
      | (Inr u, w1) \<Rightarrow> (Inr u, w1))"

definition path_mkdir :: "pure_path \<Rightarrow> unit prog" where
  "path_mkdir p w = mkdir_parents (anchor p) (rev (names p)) w"

text \<open>
  \<open>Path.unlink()\<close>: after the path is resolved the kernel checks, in this order, that the
  entry exists, that the directory may be written, that a sticky directory lets this
  process remove the entry, and that the entry is not a directory.
\<close>

definition unlink_fs :: "filesystem \<Rightarrow> loc \<Rightarrow> exn + filesystem" where
  "unlink_fs f l =
     (case f l of
        None \<Rightarrow> Inl FileNotFoundError
      | Some n \<Rightarrow>
          (case f (butlast l) of
             Some (Dir m) \<Rightarrow>
               if \<not> writable m then Inl PermissionError
               else if sticky m \<and> \<not> owned (perms n) \<and> \<not> owned m then Inl PermissionError
               else (case n of
                       Dir _ \<Rightarrow> Inl IsADirectoryError
                     | File _ _ \<Rightarrow> Inr (f(l := None)))
           | _ \<Rightarrow> Inl FileNotFoundError))"

definition path_unlink :: "pure_path \<Rightarrow> unit prog" where
  "path_unlink p w =
     (let w' = record_event (Unlink p) w in
      case lookup w p of
        Inl e \<Rightarrow> (Inl e, w')
      | Inr l \<Rightarrow>
          if names_no_entry p then (Inl IsADirectoryError, w')
          else (case unlink_fs (fs w) l of
                  Inl e \<Rightarrow> (Inl e, w')
                | Inr f \<Rightarrow> (Inr (), w'\<lparr>fs := f\<rparr>)))"

text \<open>
  \<open>shutil.copyfile(src, dst)\<close> first refuses to copy a file onto itself (\<open>samefile\<close> treats
  every \<open>OSError\<close> of \<open>stat\<close> as "not the same"), then opens the source for reading and
  then the destination for writing, creating it when it is missing.
\<close>

definition samefile :: "world \<Rightarrow> pure_path \<Rightarrow> pure_path \<Rightarrow> exn + bool" where
  "samefile w src dst =
     (case os_stat w src of
        Inl e \<Rightarrow> if e = ValueError then Inl e else Inr False
      | Inr _ \<Rightarrow>
          (case os_stat w dst of
             Inl e \<Rightarrow> if e = ValueError then Inl e else Inr False
           | Inr _ \<Rightarrow> Inr (lookup w src = lookup w dst)))"

definition open_read :: "world \<Rightarrow> pure_path \<Rightarrow> exn + byte list \<times> permissions" where
  "open_read w p =
     (case os_stat w p of
        Inl e \<Rightarrow> Inl e
      | Inr n \<Rightarrow>
          if \<not> readable (perms n) then Inl PermissionError
          else (case n of Dir _ \<Rightarrow> Inl IsADirectoryError | File bs m \<Rightarrow> Inr (bs, m)))"

definition open_write :: "world \<Rightarrow> pure_path \<Rightarrow> exn + loc" where
  "open_write w p =
     (case lookup w p of
        Inl e \<Rightarrow> Inl e
      | Inr l \<Rightarrow>
          (case fs w l of
             Some (Dir _) \<Rightarrow> Inl IsADirectoryError
           | Some (File _ m) \<Rightarrow> if writable m then Inr l else Inl PermissionError
           | None \<Rightarrow>
               (case fs w (butlast l) of
                  Some (Dir m) \<Rightarrow> if writable m then Inr l else Inl PermissionError
                | _ \<Rightarrow> Inl FileNotFoundError)))"

definition copyfile :: "world \<Rightarrow> pure_path \<Rightarrow> pure_path \<Rightarrow> exn + loc \<times> byte list \<times> permissions" where
  "copyfile w src dst =
     (case samefile w src dst of
        Inl e \<Rightarrow> Inl e
      | Inr same \<Rightarrow>
          if same then Inl SameFileError
          else (case open_read w src of
                  Inl e \<Rightarrow> Inl e
                | Inr (bs, m) \<Rightarrow>
                    (case open_write w dst of
                       Inl e \<Rightarrow> Inl e
                     | Inr d \<Rightarrow> Inr (d, bs, m))))"

text \<open>
  \<open>shutil.copy2(src, dst)\<close>: a destination that is a directory stands for the entry of
  the source's base name inside it. After the bytes are written, \<open>copystat\<close> gives the
  destination the source's permission bits and times, which only the owner of a file may
  do: a new file belongs to the process, a file that was already there and belongs to
  someone else keeps the new bytes and the call raises.
\<close>

definition copy2 :: "pure_path \<Rightarrow> pure_path \<Rightarrow> unit prog" where
  "copy2 src dst w =
     (let w' = record_event (Copy src dst) w;
          dst' = (if os_path_isdir w dst \<and> names src \<noteq> []
                  then dst\<lparr>names := names dst @ [last (names src)]\<rparr> else dst)
      in case copyfile w src dst' of
           Inl e \<Rightarrow> (Inl e, w')
         | Inr (d, bs, m) \<Rightarrow>
             (case fs w d of
                Some (File _ old) \<Rightarrow>
                  if owned old then (Inr (), w'\<lparr>fs := (fs w)(d \<mapsto> File bs (m\<lparr>owned := True\<rparr>))\<rparr>)
                  else (Inl PermissionError, w'\<lparr>fs := (fs w)(d \<mapsto> File bs old)\<rparr>)
              | _ \<Rightarrow> (Inr (), w'\<lparr>fs := (fs w)(d \<mapsto> File bs (m\<lparr>owned := True\<rparr>))\<rparr>)))"

text \<open>
  \<open>subprocess.run(argv, input=..., text=True, capture_output=True, timeout=...)\<close>: a process
  that has not exited when the timeout expires is killed and \<open>TimeoutExpired\<close> is raised.
  The time spent waiting is added to \<open>waited\<close>.
\<close>

definition subprocess_run :: "string list \<Rightarrow> string \<Rightarrow> nat \<Rightarrow> completed_process prog" where
  "subprocess_run argv input timeout w =
     (let w' = record_event (Spawn argv input) w in
      case execute w argv input (fs w) of
        Missing \<Rightarrow> (Inl FileNotFoundError, w')
      | Forbidden \<Rightarrow> (Inl PermissionError, w')
      | Process ex res f \<Rightarrow>
          (case ex of
             None \<Rightarrow> (Inl TimeoutExpired, w'\<lparr>fs := f timeout, waited := waited w + timeout\<rparr>)
           | Some t \<Rightarrow>
               if t \<le> timeout then (Inr res, w'\<lparr>fs := f t, waited := waited w + t\<rparr>)
               else (Inl TimeoutExpired, w'\<lparr>fs := f timeout, waited := waited w + timeout\<rparr>)))"

subsection \<open>The script\<close>

definition datetime_now :: "datetime prog" where
  "datetime_now w = (Inr (clock w), w)"

definition quoted :: "string \<Rightarrow> string" where
  "quoted s = [CHR 0x27] @ s @ [CHR 0x27]"

definition sql_commands :: "string \<Rightarrow> string \<Rightarrow> string" where
  "sql_commands abs_db abs_backup =
     [CHR 0x0A] @
     ''ATTACH '' @ quoted abs_db @ '' AS source_db (READ_ONLY);'' @ [CHR 0x0A] @
     ''ATTACH '' @ quoted abs_backup @ '' AS backup_db;'' @ [CHR 0x0A] @
     ''COPY FROM DATABASE source_db TO backup_db;'' @ [CHR 0x0A]"

text \<open>Names for the parts of \<open>backup_with_attach\<close> that the theorems refer to.\<close>

abbreviation attach_started :: "string \<Rightarrow> string \<Rightarrow> world \<Rightarrow> world" where
  "attach_started db_path backup_path w \<equiv>
     record_event (Logged INFO (''Starting ATTACH+COPY backup: '' @ db_path @ '' -> '' @ backup_path)) w"

abbreviation attach_sql :: "string \<Rightarrow> string \<Rightarrow> world \<Rightarrow> string" where
  "attach_sql db_path backup_path w \<equiv>
     sql_commands (str_path (resolve w (Path db_path))) (str_path (resolve w (Path backup_path)))"

abbreviation attach_error :: "exn \<Rightarrow> event" where
  "attach_error e \<equiv> Logged ERROR (''ATTACH+COPY backup error: '' @ exn_text e)"

definition backup_with_attach :: "string \<Rightarrow> string \<Rightarrow> bool prog" where
  "backup_with_attach db_path backup_path =
     and_then (logger INFO (''Starting ATTACH+COPY backup: '' @ db_path @ '' -> '' @ backup_path)) (\<lambda>_.
     try_except
       (and_then (path_resolve (Path db_path)) (\<lambda>abs_db.
        and_then (path_resolve (Path backup_path)) (\<lambda>abs_backup.
        and_then (path_mkdir (parent abs_backup)) (\<lambda>_.
        and_then (subprocess_run [''duckdb'']
                    (sql_commands (str_path abs_db) (str_path abs_backup)) 3600) (\<lambda>result.
        if returncode result \<noteq> 0 then
          and_then (logger ERROR (''DuckDB backup failed: '' @ stderr result)) (\<lambda>_.
          ret False)
        else
          and_then (path_stat abs_backup) (\<lambda>size_bytes.
          and_then (logger INFO (''ATTACH+COPY backup completed: '' @ format_mb size_bytes @ '' MB'')) (\<lambda>_.
          ret True)))))))
       (\<lambda>e.
          and_then (logger ERROR (''ATTACH+COPY backup error: '' @ exn_text e)) (\<lambda>_.
          ret False)))"

definition backup_with_cp :: "string \<Rightarrow> string \<Rightarrow> bool prog" where
  "backup_with_cp db_path backup_path =
     and_then (logger INFO (''Starting file-based backup: '' @ db_path @ '' -> '' @ backup_path)) (\<lambda>_.
     try_except
       (let source = Path db_path; dest = Path backup_path in
        and_then (path_exists source) (\<lambda>found.
        if \<not> found then
          and_then (logger ERROR (''Source database not found: '' @ db_path)) (\<lambda>_.
          ret False)
        else
          and_then (path_mkdir (parent dest)) (\<lambda>_.
          and_then (path_exists dest) (\<lambda>occupied.
          and_then (if occupied then
                      and_then (logger WARNING (''Overwriting existing backup: '' @ backup_path)) (\<lambda>_.
                      path_unlink dest)
                    else ret ()) (\<lambda>_.
          and_then (copy2 source dest) (\<lambda>_.
          and_then (path_stat dest) (\<lambda>size_bytes.
          and_then (logger INFO (''File-based backup completed: '' @ format_mb size_bytes @ '' MB'')) (\<lambda>_.
          ret True))))))))
       (\<lambda>e.
          and_then (logger ERROR (''File-based backup error: '' @ exn_text e)) (\<lambda>_.
          ret False)))"

definition backup_filename :: "datetime \<Rightarrow> string" where
  "backup_filename t = ''backup-'' @ strftime t @ ''.duckdb''"

definition create_timestamped_backup :: "string \<Rightarrow> string \<Rightarrow> string \<Rightarrow> string prog" where
  "create_timestamped_backup db_path backup_dir method =
     and_then datetime_now (\<lambda>t.
     let backup_path = str_path (joinpath (Path backup_dir) (backup_filename t)) in
     and_then (logger INFO (''Creating timestamped backup: '' @ backup_filename t)) (\<lambda>_.
     if method = ''cp'' then
       and_then (backup_with_cp db_path backup_path) (\<lambda>success.
       ret (if success then backup_path else []))
     else if method = ''attach'' then
       and_then (backup_with_attach db_path backup_path) (\<lambda>success.
       ret (if success then backup_path else []))
     else
       and_then (logger ERROR (''Unknown backup method: '' @ method)) (\<lambda>_.
       ret [])))"

text \<open>
  The command line as \<open>argparse\<close> has collected it (splitting \<open>sys.argv\<close> into options is
  \<open>argparse\<close>'s work and is not modelled): whether \<open>-h\<close> or \<open>--help\<close> stands on it before
  anything the parser rejects, and the value given for each option, if any. For \<open>-h\<close>,
  \<open>parse_args\<close> prints the help message and raises \<open>SystemExit(0)\<close>. Otherwise it enforces
  \<open>required=True\<close> and \<open>choices\<close>, applies the default of \<open>--method\<close>, and on a violation
  prints the usage to standard error and raises \<open>SystemExit(2)\<close>.
\<close>

record command_line =
  asks_help :: bool
  given_db :: "string option"
  given_backup :: "string option"
  given_method :: "string option"
  given_timestamp :: bool

record args =
  db :: string
  backup :: string
  method_choice :: string
  timestamp :: bool

definition print_help :: "unit prog" where
  "print_help w = (Inr (), record_event Helped w)"

definition parse_args :: "command_line \<Rightarrow> args prog" where
  "parse_args c =
     (if asks_help c then and_then print_help (\<lambda>_. raise (SystemExit 0))
      else case given_method c of
        Some m \<Rightarrow>
          if m \<notin> set [''cp'', ''attach''] then raise (SystemExit 2)
          else (case (given_db c, given_backup c) of
                  (Some d, Some b) \<Rightarrow>
                    ret \<lparr>db = d, backup = b, method_choice = m, timestamp = given_timestamp c\<rparr>
                | _ \<Rightarrow> raise (SystemExit 2))
      | None \<Rightarrow>
          (case (given_db c, given_backup c) of
             (Some d, Some b) \<Rightarrow>
               ret \<lparr>db = d, backup = b, method_choice = ''cp'', timestamp = given_timestamp c\<rparr>
           | _ \<Rightarrow> raise (SystemExit 2)))"

text \<open>The body of \<open>main\<close> after \<open>parser.parse_args()\<close>.\<close>

definition main_dispatch :: "args \<Rightarrow> nat prog" where
  "main_dispatch a =
     (if timestamp a then
        and_then (create_timestamped_backup (db a) (backup a) (method_choice a)) (\<lambda>backup_path.
        if backup_path \<noteq> [] then
          and_then (print backup_path) (\<lambda>_.
          ret 0)
        else ret 1)
      else
        and_then (if method_choice a = ''cp'' then backup_with_cp (db a) (backup a)
                  else backup_with_attach (db a) (backup a)) (\<lambda>success.
        ret (if success then 0 else 1)))"

definition main :: "command_line \<Rightarrow> nat prog" where
  "main c = and_then (parse_args c) main_dispatch"

text \<open>
  \<open>sys.exit(main())\<close>: the exit status of the process is the value \<open>main\<close> returns, the
  code of a \<open>SystemExit\<close>, and 1 for any other exception that reaches the top level.
\<close>

fun exit_status :: "exn + nat \<Rightarrow> nat" where
  "exit_status (Inr code) = code"
| "exit_status (Inl (SystemExit code)) = code"
| "exit_status (Inl _) = 1"

definition script :: "command_line \<Rightarrow> world \<Rightarrow> nat \<times> world" where
  "script c w = (case main c w of (r, w') \<Rightarrow> (exit_status r, w'))"

text \<open>
  What the \<open>print\<close> calls of a run have written to standard output, the events that write
  to standard output at all, and the mutating calls.
\<close>

fun printed :: "event list \<Rightarrow> string list" where
  "printed [] = []"
| "printed (Printed s # es) = s # printed es"
| "printed (_ # es) = printed es"

fun on_stdout :: "event \<Rightarrow> bool" where
  "on_stdout (Printed _) = True"
| "on_stdout Helped = True"
| "on_stdout _ = False"

fun mutating :: "event \<Rightarrow> bool" where
  "mutating (Logged _ _) = False"
| "mutating (Printed _) = False"
| "mutating Helped = False"
| "mutating _ = True"

text \<open>The events a run has added to the trace, and whether it started a subprocess.\<close>

definition new_events :: "world \<Rightarrow> world \<Rightarrow> event list" where
  "new_events w w' = drop (length (trace w)) (trace w')"

fun is_mkdir :: "event \<Rightarrow> bool" where
  "is_mkdir (Mkdir _) = True"
| "is_mkdir _ = False"

fun is_spawn :: "event \<Rightarrow> bool" where
  "is_spawn (Spawn _ _) = True"
| "is_spawn _ = False"

definition spawned :: "world \<Rightarrow> world \<Rightarrow> bool" where
  "spawned w w' \<longleftrightarrow> list_ex is_spawn (new_events w w')"

subsection \<open>What a computation can produce\<close>

text \<open>
  \<open>yields m P\<close>: whatever the world, \<open>m\<close> either returns a value satisfying \<open>P\<close> or raises
  an exception derived from \<open>Exception\<close>; it only adds events to the trace, none of them on
  standard output; and it leaves the clock, the current directory and the installed
  programs alone.
\<close>

definition yields :: "'a prog \<Rightarrow> ('a \<Rightarrow> bool) \<Rightarrow> bool" where
  "yields m P \<longleftrightarrow>
     (\<forall>w r w'. m w = (r, w') \<longrightarrow>
        (case r of Inl e \<Rightarrow> is_Exception e | Inr a \<Rightarrow> P a)
        \<and> (\<exists>es. trace w' = trace w @ es \<and> \<not> list_ex on_stdout es)
        \<and> clock w' = clock w \<and> cwd w' = cwd w \<and> execute w' = execute w)"

subsection \<open>Coherent worlds\<close>

text \<open>
  In a well-formed file system the root is a directory and every other entry lies in a
  directory; in a coherent world the current directory is a directory too. Every call
  above preserves this; the theorems that need it assume it of the initial world.
\<close>

definition well_formed :: "filesystem \<Rightarrow> bool" where
  "well_formed f \<longleftrightarrow> is_dir f [] \<and> (\<forall>l. l \<noteq> [] \<longrightarrow> f l \<noteq> None \<longrightarrow> is_dir f (butlast l))"

definition coherent :: "world \<Rightarrow> bool" where
  "coherent w \<longleftrightarrow> well_formed (fs w) \<and> is_dir (fs w) (cwd w)"

subsection \<open>An example world\<close>

text \<open>
  A small file system used to instantiate the theorems below: in \<open>/data\<close> (the current
  directory) a database of four bytes and a second one that the process may not read, an
  older backup in \<open>/tmp\<close>, a directory \<open>/ro\<close> without write permission holding another old
  backup, a sticky directory \<open>/shared\<close> of another user holding that user's backup, and no
  \<open>duckdb\<close> executable.
\<close>

definition example_fs :: filesystem where
  "example_fs =
     [[] \<mapsto> Dir full_access,
      [''data''] \<mapsto> Dir full_access,
      [''data'', ''a.db''] \<mapsto> File [0x44, 0x55, 0x43, 0x4B] full_access,
      [''data'', ''secret.db''] \<mapsto> File [0x53] (full_access\<lparr>readable := False\<rparr>),
      [''tmp''] \<mapsto> Dir full_access,
      [''tmp'', ''out.db''] \<mapsto> File [0x01, 0x02] full_access,
      [''ro''] \<mapsto> Dir (full_access\<lparr>writable := False\<rparr>),
      [''ro'', ''out.db''] \<mapsto> File [0x03] full_access,
      [''shared''] \<mapsto> Dir (full_access\<lparr>owned := False, sticky := True\<rparr>),
      [''shared'', ''out.db''] \<mapsto> File [0x04] (full_access\<lparr>owned := False\<rparr>)]"

definition example_world :: world where
  "example_world =
     \<lparr>fs = example_fs, cwd = [''data''],
      clock = \<lparr>year = 2025, month = 12, day = 23, hour = 15, minute = 30, second = 45\<rparr>,
      execute = (\<lambda>argv input f. Missing), trace = [], waited = 0\<rparr>"

subsection \<open>Basic facts\<close>

lemma and_then_ret [simp]: "and_then (ret a) f w = f a w"
  by (simp add: and_then_def ret_def)

lemma and_then_logger [simp]: "and_then (logger l m) f w = f () (record_event (Logged l m) w)"
  by (simp add: and_then_def logger_def)

lemma and_then_print [simp]: "and_then (print s) f w = f () (record_event (Printed s) w)"
  by (simp add: and_then_def print_def)

lemma and_then_datetime_now [simp]: "and_then datetime_now f w = f (clock w) w"
  by (simp add: and_then_def datetime_now_def)

lemma and_then_Inr: "m w = (Inr a, w') \<Longrightarrow> and_then m f w = f a w'"
  by (simp add: and_then_def)

lemma and_then_Inl: "m w = (Inl e, w') \<Longrightarrow> and_then m f w = (Inl e, w')"
  by (simp add: and_then_def)

lemma and_then_assoc [simp]:
  "and_then (and_then m g) f = and_then m (\<lambda>a. and_then (g a) f)"
  by (rule ext) (simp add: and_then_def split: prod.splits sum.splits)

lemma record_event_fields [simp]:
  "fs (record_event ev w) = fs w"
  "cwd (record_event ev w) = cwd w"
  "clock (record_event ev w) = clock w"
  "execute (record_event ev w) = execute w"
  "waited (record_event ev w) = waited w"
  "trace (record_event ev w) = trace w @ [ev]"
  by (simp_all add: record_event_def)

lemma lookup_record_event [simp]: "lookup (record_event ev w) p = lookup w p"
  by (simp add: lookup_def)

lemma os_stat_record_event [simp]: "os_stat (record_event ev w) p = os_stat w p"
  by (simp add: os_stat_def split: sum.splits)

lemma resolve_record_event [simp]: "resolve (record_event ev w) p = resolve w p"
  by (simp add: resolve_def)

subsection \<open>What resolving a path can raise\<close>

lemma walk_raises:
  "walk f cur ns = Inl e \<Longrightarrow>
     e = FileNotFoundError \<or> e = NotADirectoryError \<or> e = PermissionError \<or> e = OSError"
  by (induction f cur ns rule: walk.induct)
     (auto split: option.splits node.splits if_splits)

lemma lookup_raises:
  assumes "lookup w p = Inl e"
  shows "e = FileNotFoundError \<or> e = NotADirectoryError \<or> e = PermissionError \<or> e = OSError
         \<or> e = ValueError"
  using assms walk_raises [of "fs w" "if anchor p = [] then cwd w else []" "names p" e]
  by (auto simp: lookup_def split: if_splits)

lemma os_stat_raises:
  assumes "os_stat w p = Inl e"
  shows "is_Exception e"
  using assms lookup_raises [of w p]
  by (auto simp: os_stat_def split: sum.splits option.splits)

text \<open>\<open>Path.exists()\<close> changes nothing, and raises nothing but an \<open>Exception\<close>.\<close>

lemma path_exists_result:
  "path_exists p w = (fst (path_exists p w), w)"
  by (simp add: path_exists_def split: sum.splits)

lemma path_exists_raises:
  assumes "fst (path_exists p w) = Inl e"
  shows "is_Exception e"
  using assms os_stat_raises [of w p]
  by (auto simp: path_exists_def split: sum.splits if_splits)

lemma path_exists_record_event [simp]:
  "fst (path_exists p (record_event ev w)) = fst (path_exists p w)"
  by (simp add: path_exists_def split: sum.splits)

lemma exists_in_record_event [simp]: "exists_in (record_event ev w) p = exists_in w p"
  by (simp add: exists_in_def)

lemma and_then_path_exists [simp]:
  "and_then (path_exists p) f w =
     (case fst (path_exists p w) of Inl e \<Rightarrow> (Inl e, w) | Inr found \<Rightarrow> f found w)"
  using path_exists_result [of p w]
  by (cases "fst (path_exists p w)") (simp_all add: and_then_def)

text \<open>
  The report of a run of \<open>backup_with_cp\<close> that does not find the source: the message of
  line 78 when \<open>exists()\<close> answers \<open>False\<close>, the one of the handler when it raises.
\<close>

lemma cp_source_missing:
  assumes "\<not> exists_in w (Path db_path)"
  shows "backup_with_cp db_path backup_path w =
     (Inr False,
      record_event
        (Logged ERROR
          (case fst (path_exists (Path db_path) w) of
             Inr found \<Rightarrow> ''Source database not found: '' @ db_path
           | Inl e \<Rightarrow> ''File-based backup error: '' @ exn_text e))
        (record_event (Logged INFO (''Starting file-based backup: '' @ db_path @ '' -> '' @ backup_path)) w))"
proof (cases "fst (path_exists (Path db_path) w)")
  case (Inl e)
  from Inl have e: "is_Exception e"
    by (rule path_exists_raises)
  from e Inl show ?thesis
    by (simp add: backup_with_cp_def try_except_def Let_def ret_def)
next
  case (Inr found)
  from Inr assms have nf: "\<not> found"
    by (simp add: exists_in_def)
  from nf Inr show ?thesis
    by (simp add: backup_with_cp_def try_except_def Let_def ret_def)
qed

lemmas example_defs =
  example_world_def example_fs_def full_access_def exists_in_def path_exists_def os_stat_def
  lookup_def ignored_def names_no_entry_def name_max_def path_max_def Path_def components_def
  parent_def str_path_def

lemma missing_db_absent: "\<not> exists_in example_world (Path ''/data/missing.db'')"
  by (simp add: example_defs)

lemma missing_db_report: "fst (path_exists (Path ''/data/missing.db'') example_world) = Inr False"
  by (simp add: example_defs)

text \<open>
  C9. When the source does not exist (\<open>Path.exists()\<close> does not answer \<open>True\<close>),
  \<open>backup_with_cp\<close> returns \<open>False\<close> having only written two log records: the file system is
  the one it started from, and no \<open>mkdir\<close>, \<open>unlink\<close> or copy was attempted (the check of
  line 77 comes before every mutating call). The second record is the message of line 78,
  or the handler's message when the check itself raised.
\<close>

theorem cp_missing_source_no_mutation:
  assumes "\<not> exists_in w (Path db_path)"
  shows "backup_with_cp db_path backup_path w =
           (Inr False,
            w\<lparr>trace := trace w @
               [Logged INFO (''Starting file-based backup: '' @ db_path @ '' -> '' @ backup_path),
                Logged ERROR
                  (case fst (path_exists (Path db_path) w) of
                     Inr found \<Rightarrow> ''Source database not found: '' @ db_path
                   | Inl e \<Rightarrow> ''File-based backup error: '' @ exn_text e)]\<rparr>)
         \<and> fs (snd (backup_with_cp db_path backup_path w)) = fs w
         \<and> filter mutating (trace (snd (backup_with_cp db_path backup_path w)))
             = filter mutating (trace w)"
  by (simp add: cp_source_missing [OF assms] record_event_def)

theorem cp_missing_source_no_mutation_witness:
  "\<not> exists_in example_world (Path ''/data/missing.db'')
   \<and> backup_with_cp ''/data/missing.db'' ''/tmp/out.db'' example_world =
       (Inr False,
        example_world\<lparr>trace :=
          [Logged INFO ''Starting file-based backup: /data/missing.db -> /tmp/out.db'',
           Logged ERROR ''Source database not found: /data/missing.db'']\<rparr>)
   \<and> fs (snd (backup_with_cp ''/data/missing.db'' ''/tmp/out.db'' example_world)) [''tmp'', ''out.db'']
       = Some (File [0x01, 0x02] full_access)
   \<and> fs (snd (backup_with_cp ''/data/missing.db'' ''/backups/new/out.db'' example_world)) [''backups'', ''new'']
       = None
   \<and> filter mutating (trace (snd (backup_with_cp ''/data/missing.db'' ''/tmp/out.db'' example_world))) = []"
proof -
  have h: "\<not> exists_in example_world (Path ''/data/missing.db'')"
    by (rule missing_db_absent)
  have t: "trace example_world = []"
    by (simp add: example_world_def)
  show ?thesis
    using h cp_missing_source_no_mutation [OF h, of "''/tmp/out.db''"]
      cp_missing_source_no_mutation [OF h, of "''/backups/new/out.db''"]
    by (simp add: missing_db_report t) (simp add: example_world_def example_fs_def)
qed

text \<open>
  C3. When the source does not exist, \<open>backup_with_cp\<close> returns \<open>False\<close> and no location
  that was empty before holds anything afterwards: no destination file is created.
\<close>

theorem cp_missing_source_fails:
  assumes "\<not> exists_in w (Path db_path)"
  shows "fst (backup_with_cp db_path backup_path w) = Inr False
         \<and> (\<forall>l. fs w l = None \<longrightarrow> fs (snd (backup_with_cp db_path backup_path w)) l = None)"
  by (simp add: cp_source_missing [OF assms])

theorem cp_missing_source_fails_witness:
  "\<not> exists_in example_world (Path ''/data/missing.db'')
   \<and> fst (backup_with_cp ''/data/missing.db'' ''/tmp/new.db'' example_world) = Inr False
   \<and> fs example_world [''tmp'', ''new.db''] = None
   \<and> fs (snd (backup_with_cp ''/data/missing.db'' ''/tmp/new.db'' example_world)) [''tmp'', ''new.db'']
       = None"
proof -
  have h: "\<not> exists_in example_world (Path ''/data/missing.db'')"
    by (rule missing_db_absent)
  have e: "fs example_world [''tmp'', ''new.db''] = None"
    by (simp add: example_world_def example_fs_def)
  show ?thesis
    using h e cp_missing_source_fails [OF h, of "''/tmp/new.db''"] by simp
qed

subsection \<open>Resolving the parent of a path\<close>

lemma walk_append:
  "walk f cur (ns @ ms) = (case walk f cur ns of Inl e \<Rightarrow> Inl e | Inr c \<Rightarrow> walk f c ms)"
  by (induction f cur ns rule: walk.induct) (auto split: option.splits node.splits)

lemma walk_last:
  assumes "walk f cur [n] = Inr d"
  shows "is_dir f cur \<and> (if n = ''..'' then d = butlast cur else d = cur @ [n])"
  using assms by (auto simp: is_dir_def split: option.splits node.splits if_splits)

lemma well_formed_parent:
  assumes "well_formed f" "is_dir f c"
  shows "is_dir f (butlast c)"
proof (cases "c = []")
  case True
  with assms show ?thesis
    by simp
next
  case False
  from assms(2) have "f c \<noteq> None"
    by (auto simp: is_dir_def split: option.splits)
  with assms(1) False show ?thesis
    by (simp add: well_formed_def)
qed

lemma join_sep_mem:
  "c \<in> set (join_sep ns) \<Longrightarrow> c \<noteq> CHR ''/'' \<Longrightarrow> \<exists>n\<in>set ns. c \<in> set n"
  by (induction ns rule: join_sep.induct) auto

lemma mem_join_sep:
  "n \<in> set ns \<Longrightarrow> c \<in> set n \<Longrightarrow> c \<in> set (join_sep ns)"
  by (induction ns rule: join_sep.induct) auto

lemma length_join_sep_butlast:
  "length (join_sep ns) \<le> length (join_sep (ns @ [n]))"
  by (induction ns rule: join_sep.induct) auto

lemma str_path_parent_nul:
  assumes "CHR 0x00 \<in> set (str_path (parent p))"
  shows "CHR 0x00 \<in> set (str_path p)"
proof (cases "names p = []")
  case True
  with assms show ?thesis
    by (simp add: parent_def)
next
  case False
  from assms False
  have "CHR 0x00 \<in> set (anchor p) \<or> CHR 0x00 \<in> set (join_sep (butlast (names p)))"
    by (auto simp: parent_def str_path_def split: if_splits)
  then show ?thesis
  proof
    assume "CHR 0x00 \<in> set (anchor p)"
    with False show ?thesis
      by (simp add: str_path_def)
  next
    assume "CHR 0x00 \<in> set (join_sep (butlast (names p)))"
    from join_sep_mem [OF this] obtain n where "n \<in> set (butlast (names p))" "CHR 0x00 \<in> set n"
      by auto
    then have "CHR 0x00 \<in> set (join_sep (names p))"
      by (auto intro: mem_join_sep dest: in_set_butlastD)
    with False show ?thesis
      by (simp add: str_path_def)
  qed
qed

lemma str_path_parent_length:
  assumes "length (str_path p) < path_max"
  shows "length (str_path (parent p)) < path_max"
proof (cases "names p = []")
  case True
  with assms show ?thesis
    by (simp add: parent_def)
next
  case False
  then have split: "names p = butlast (names p) @ [last (names p)]"
    by simp
  have "length (join_sep (butlast (names p))) \<le> length (join_sep (names p))"
    using length_join_sep_butlast [of "butlast (names p)" "last (names p)"] split by simp
  with assms False show ?thesis
    by (auto simp: parent_def str_path_def path_max_def)
qed

text \<open>
  In a coherent world a path that resolves to something other than a directory has a
  proper last name, and its parent resolves to the directory holding that name.
\<close>

lemma lookup_entry:
  assumes co: "coherent w"
    and lk: "lookup w p = Inr d"
    and nd: "\<not> is_dir (fs w) d"
  shows "\<not> names_no_entry p \<and> lookup w (parent p) = Inr (butlast d) \<and> is_dir (fs w) (butlast d)"
proof -
  let ?start = "if anchor p = [] then cwd w else []"
  from co have wf: "well_formed (fs w)" and start: "is_dir (fs w) ?start"
    by (auto simp: coherent_def well_formed_def)
  from lk have nul: "CHR 0x00 \<notin> set (str_path p)" and len: "length (str_path p) < path_max"
    and wk: "walk (fs w) ?start (names p) = Inr d"
    by (auto simp: lookup_def split: if_splits)
  have ne: "names p \<noteq> []"
  proof
    assume "names p = []"
    with wk have "d = ?start"
      by simp
    with start nd show False
      by simp
  qed
  then have split: "names p = butlast (names p) @ [last (names p)]"
    by simp
  from wk obtain c where c: "walk (fs w) ?start (butlast (names p)) = Inr c"
    and l: "walk (fs w) c [last (names p)] = Inr d"
    using walk_append [of "fs w" ?start "butlast (names p)" "[last (names p)]"] split
    by (auto split: sum.splits)
  note wl = walk_last [OF l]
  have nup: "last (names p) \<noteq> ''..''"
  proof
    assume up: "last (names p) = ''..''"
    with wl have "d = butlast c" "is_dir (fs w) c"
      by auto
    with well_formed_parent [OF wf] nd show False
      by blast
  qed
  with wl have d: "d = c @ [last (names p)]" and cd: "is_dir (fs w) c"
    by auto
  have "lookup w (parent p) = Inr c"
    using str_path_parent_nul [of p] str_path_parent_length [OF len] nul c ne
    by (auto simp: lookup_def parent_def)
  with ne nup d cd show ?thesis
    by (simp add: names_no_entry_def)
qed

subsection \<open>Resolving a path after a file has come or gone\<close>

lemma walk_update:
  assumes "walk f cur ns = Inr l" "\<not> is_dir f d"
  shows "walk (f(d := v)) cur ns = Inr l"
  using assms
proof (induction f cur ns rule: walk.induct)
  case (1 f cur)
  then show ?case
    by simp
next
  case (2 f cur n ns)
  from "2.prems"(1) obtain m where m: "f cur = Some (Dir m)"
    by (auto split: option.splits node.splits)
  with "2.prems"(2) have cd: "cur \<noteq> d"
    by (auto simp: is_dir_def)
  from "2.prems" m cd 2 show ?case
    by (auto split: if_splits)
qed

lemma lookup_update:
  assumes "lookup w p = Inr l" "\<not> is_dir (fs w) d"
    and "fs w' = (fs w)(d := v)" "cwd w' = cwd w"
  shows "lookup w' p = Inr l"
  using assms walk_update [of "fs w" "if anchor p = [] then cwd w else []" "names p" l d v]
  by (auto simp: lookup_def split: if_splits)

subsection \<open>Single calls on paths that resolve\<close>

lemma exists_present:
  assumes "lookup w p = Inr l" "fs w l \<noteq> None"
  shows "fst (path_exists p w) = Inr True"
  using assms by (auto simp: path_exists_def os_stat_def)

lemma exists_absent:
  assumes "lookup w p = Inr l" "fs w l = None"
  shows "fst (path_exists p w) = Inr False"
  using assms by (simp add: path_exists_def os_stat_def ignored_def)

lemma os_mkdir_existing:
  assumes "lookup w p = Inr l" "fs w l \<noteq> None"
  shows "os_mkdir p w = (Inl FileExistsError, record_event (Mkdir p) w)"
  using assms by (simp add: os_mkdir_def Let_def)

lemma path_is_dir_dir:
  assumes "lookup w p = Inr l" "is_dir (fs w) l"
  shows "path_is_dir p w = (Inr True, w)"
  using assms
  by (auto simp: path_is_dir_def os_stat_def is_dir_def split: option.splits node.splits)

lemma mkdir_parents_existing:
  assumes lk: "lookup w \<lparr>anchor = a, names = rev rns\<rparr> = Inr l"
    and dir: "is_dir (fs w) l"
  shows "mkdir_parents a rns w = (Inr (), record_event (Mkdir \<lparr>anchor = a, names = rev rns\<rparr>) w)"
proof -
  let ?p = "\<lparr>anchor = a, names = rev rns\<rparr>"
  let ?w' = "record_event (Mkdir ?p) w"
  from dir have "fs w l \<noteq> None"
    by (auto simp: is_dir_def split: option.splits)
  from os_mkdir_existing [OF lk this] have mk: "os_mkdir ?p w = (Inl FileExistsError, ?w')" .
  have "lookup ?w' ?p = Inr l" "is_dir (fs ?w') l"
    using lk dir by simp_all
  from path_is_dir_dir [OF this] have isd: "path_is_dir ?p ?w' = (Inr True, ?w')" .
  show ?thesis
  proof (cases rns)
    case Nil
    with mk isd show ?thesis
      by (simp add: mkdir_exist_ok_def)
  next
    case (Cons n ns)
    with mk isd show ?thesis
      by simp
  qed
qed

lemma path_mkdir_existing:
  assumes "lookup w p = Inr l" "is_dir (fs w) l"
  shows "path_mkdir p w = (Inr (), record_event (Mkdir p) w)"
proof -
  have p: "\<lparr>anchor = anchor p, names = rev (rev (names p))\<rparr> = p"
    by (cases p) simp
  from mkdir_parents_existing [of w "anchor p" "rev (names p)" l] assms show ?thesis
    unfolding p by (simp add: path_mkdir_def)
qed

lemma path_unlink_file:
  assumes "lookup w p = Inr d" "\<not> names_no_entry p"
    and "fs w d = Some (File old om)" "fs w (butlast d) = Some (Dir dm)" "writable dm"
    and "sticky dm \<longrightarrow> owned om \<or> owned dm"
  shows "path_unlink p w = (Inr (), (record_event (Unlink p) w)\<lparr>fs := (fs w)(d := None)\<rparr>)"
  using assms by (auto simp: path_unlink_def unlink_fs_def Let_def)

lemma copy2_fresh:
  assumes "lookup w src = Inr s" "fs w s = Some (File bs m)" "readable m"
    and "lookup w dst = Inr d" "fs w d = None" "fs w (butlast d) = Some (Dir dm)" "writable dm"
  shows "copy2 src dst w =
           (Inr (), (record_event (Copy src dst) w)
                      \<lparr>fs := (fs w)(d \<mapsto> File bs (m\<lparr>owned := True\<rparr>))\<rparr>)"
  using assms
  by (simp add: copy2_def copyfile_def samefile_def open_read_def open_write_def os_stat_def
      os_path_isdir_def Let_def)

lemma path_stat_entry:
  assumes "lookup w p = Inr l" "fs w l = Some n"
  shows "path_stat p w = (Inr (st_size n), w)"
  using assms by (simp add: path_stat_def os_stat_def)

lemma path_stat_missing:
  assumes "lookup w p = Inr l" "fs w l = None"
  shows "path_stat p w = (Inl FileNotFoundError, w)"
  using assms by (simp add: path_stat_def os_stat_def)

text \<open>Sequencing after a call whose result is known.\<close>

lemma and_then_mkdir_Inl:
  "path_mkdir p w = (Inl e, w') \<Longrightarrow> and_then (path_mkdir p) f w = (Inl e, w')"
  by (simp add: and_then_def)

lemma and_then_mkdir_Inr:
  "path_mkdir p w = (Inr a, w') \<Longrightarrow> and_then (path_mkdir p) f w = f a w'"
  by (simp add: and_then_def)

lemma and_then_unlink_Inl:
  "path_unlink p w = (Inl e, w') \<Longrightarrow> and_then (path_unlink p) f w = (Inl e, w')"
  by (simp add: and_then_def)

lemma and_then_unlink_Inr:
  "path_unlink p w = (Inr a, w') \<Longrightarrow> and_then (path_unlink p) f w = f a w'"
  by (simp add: and_then_def)

lemma and_then_copy2_Inl:
  "copy2 src dst w = (Inl e, w') \<Longrightarrow> and_then (copy2 src dst) f w = (Inl e, w')"
  by (simp add: and_then_def)

lemma and_then_copy2_Inr:
  "copy2 src dst w = (Inr a, w') \<Longrightarrow> and_then (copy2 src dst) f w = f a w'"
  by (simp add: and_then_def)

lemma and_then_stat_Inl:
  "path_stat p w = (Inl e, w') \<Longrightarrow> and_then (path_stat p) f w = (Inl e, w')"
  by (simp add: and_then_def)

lemma and_then_stat_Inr:
  "path_stat p w = (Inr a, w') \<Longrightarrow> and_then (path_stat p) f w = f a w'"
  by (simp add: and_then_def)

lemma and_then_run_Inl:
  "subprocess_run argv input t w = (Inl e, w') \<Longrightarrow>
     and_then (subprocess_run argv input t) f w = (Inl e, w')"
  by (simp add: and_then_def)

lemma and_then_run_Inr:
  "subprocess_run argv input t w = (Inr a, w') \<Longrightarrow>
     and_then (subprocess_run argv input t) f w = f a w'"
  by (simp add: and_then_def)

subsection \<open>A successful copy\<close>

text \<open>
  The run of \<open>backup_with_cp\<close> when the destination path is free: \<open>mkdir\<close> of the existing
  directory, copy, \<open>stat\<close>.
\<close>

lemma cp_fresh:
  assumes co: "coherent w"
    and src: "lookup w (Path db_path) = Inr s"
    and reg: "fs w s = Some (File bs m)"
    and rd: "readable m"
    and dst: "lookup w (Path backup_path) = Inr d"
    and dir: "fs w (butlast d) = Some (Dir dm)"
    and wr: "writable dm"
    and free: "fs w d = None"
  shows "backup_with_cp db_path backup_path w =
     (Inr True,
      w\<lparr>fs := (fs w)(d \<mapsto> File bs (m\<lparr>owned := True\<rparr>)),
        trace := trace w @
          [Logged INFO (''Starting file-based backup: '' @ db_path @ '' -> '' @ backup_path),
           Mkdir (parent (Path backup_path)),
           Copy (Path db_path) (Path backup_path),
           Logged INFO (''File-based backup completed: '' @ format_mb (length bs) @ '' MB'')]\<rparr>)"
proof -
  let ?src = "Path db_path"
  let ?dst = "Path backup_path"
  let ?w1 = "record_event (Logged INFO (''Starting file-based backup: '' @ db_path @ '' -> '' @ backup_path)) w"
  let ?w2 = "record_event (Mkdir (parent ?dst)) ?w1"
  let ?f3 = "(fs w)(d \<mapsto> File bs (m\<lparr>owned := True\<rparr>))"
  let ?w3 = "(record_event (Copy ?src ?dst) ?w2)\<lparr>fs := ?f3\<rparr>"
  from free have nd: "\<not> is_dir (fs w) d"
    by (simp add: is_dir_def)
  from lookup_entry [OF co dst nd]
  have pl: "lookup w (parent ?dst) = Inr (butlast d)" and pd: "is_dir (fs w) (butlast d)"
    by simp_all
  have ex1: "fst (path_exists ?src w) = Inr True"
    using src reg by (auto intro: exists_present)
  have ex2: "fst (path_exists ?dst w) = Inr False"
    using dst free by (rule exists_absent)
  have mk: "path_mkdir (parent ?dst) ?w1 = (Inr (), ?w2)"
    using pl pd by (auto intro: path_mkdir_existing)
  have cp: "copy2 ?src ?dst ?w2 = (Inr (), ?w3)"
    using copy2_fresh [of ?w2 ?src s bs m ?dst d dm] src reg rd dst free dir wr by simp
  have "lookup ?w3 ?dst = Inr d"
    using dst nd by (rule lookup_update) (simp_all add: is_dir_def)
  then have st: "path_stat ?dst ?w3 = (Inr (length bs), ?w3)"
    using path_stat_entry [of ?w3 ?dst d "File bs (m\<lparr>owned := True\<rparr>)"] by simp
  have run: "backup_with_cp db_path backup_path w =
     (Inr True,
      record_event (Logged INFO (''File-based backup completed: '' @ format_mb (length bs) @ '' MB'')) ?w3)"
    by (simp only: backup_with_cp_def Let_def and_then_logger and_then_path_exists
        path_exists_record_event ex1 ex2 sum.case simp_thms if_True if_False
        and_then_mkdir_Inr [OF mk] and_then_copy2_Inr [OF cp] and_then_stat_Inr [OF st]
        try_except_def prod.case and_then_ret ret_def)
  show ?thesis
    unfolding run by (simp add: record_event_def)
qed

text \<open>
  The run when a regular file that the process may remove occupies the destination path:
  \<open>mkdir\<close>, warning, \<open>unlink\<close>, copy, \<open>stat\<close>.
\<close>

lemma cp_overwrite:
  assumes co: "coherent w"
    and src: "lookup w (Path db_path) = Inr s"
    and reg: "fs w s = Some (File bs m)"
    and rd: "readable m"
    and dst: "lookup w (Path backup_path) = Inr d"
    and dir: "fs w (butlast d) = Some (Dir dm)"
    and wr: "writable dm"
    and occ: "fs w d = Some (File old om)"
    and rm: "sticky dm \<longrightarrow> owned om \<or> owned dm"
    and sd: "s \<noteq> d"
  shows "backup_with_cp db_path backup_path w =
     (Inr True,
      w\<lparr>fs := (fs w)(d \<mapsto> File bs (m\<lparr>owned := True\<rparr>)),
        trace := trace w @
          [Logged INFO (''Starting file-based backup: '' @ db_path @ '' -> '' @ backup_path),
           Mkdir (parent (Path backup_path)),
           Logged WARNING (''Overwriting existing backup: '' @ backup_path),
           Unlink (Path backup_path),
           Copy (Path db_path) (Path backup_path),
           Logged INFO (''File-based backup completed: '' @ format_mb (length bs) @ '' MB'')]\<rparr>)"
proof -
  let ?src = "Path db_path"
  let ?dst = "Path backup_path"
  let ?w1 = "record_event (Logged INFO (''Starting file-based backup: '' @ db_path @ '' -> '' @ backup_path)) w"
  let ?w2 = "record_event (Mkdir (parent ?dst)) ?w1"
  let ?w3 = "record_event (Logged WARNING (''Overwriting existing backup: '' @ backup_path)) ?w2"
  let ?w4 = "(record_event (Unlink ?dst) ?w3)\<lparr>fs := (fs w)(d := None)\<rparr>"
  let ?f5 = "(fs w)(d \<mapsto> File bs (m\<lparr>owned := True\<rparr>))"
  let ?w5 = "(record_event (Copy ?src ?dst) ?w4)\<lparr>fs := ?f5\<rparr>"
  from occ have nd: "\<not> is_dir (fs w) d"
    by (simp add: is_dir_def)
  from lookup_entry [OF co dst nd]
  have ne: "\<not> names_no_entry ?dst"
    and pl: "lookup w (parent ?dst) = Inr (butlast d)" and pd: "is_dir (fs w) (butlast d)"
    by simp_all
  from dir occ have bd: "butlast d \<noteq> d"
    by auto
  have ex1: "fst (path_exists ?src w) = Inr True"
    using src reg by (auto intro: exists_present)
  have ex2: "fst (path_exists ?dst w) = Inr True"
    using dst occ by (auto intro: exists_present)
  have mk: "path_mkdir (parent ?dst) ?w1 = (Inr (), ?w2)"
    using pl pd by (auto intro: path_mkdir_existing)
  have ul: "path_unlink ?dst ?w3 = (Inr (), ?w4)"
    using path_unlink_file [of ?w3 ?dst d old om dm] dst ne occ dir wr rm by simp
  have s4: "lookup ?w4 ?src = Inr s"
    using src nd by (rule lookup_update) (simp_all add: is_dir_def)
  have d4: "lookup ?w4 ?dst = Inr d"
    using dst nd by (rule lookup_update) (simp_all add: is_dir_def)
  have cp: "copy2 ?src ?dst ?w4 = (Inr (), ?w5)"
    using copy2_fresh [of ?w4 ?src s bs m ?dst d dm] s4 d4 reg rd dir wr sd bd by simp
  have "lookup ?w5 ?dst = Inr d"
    using dst nd by (rule lookup_update) (simp_all add: is_dir_def)
  then have st: "path_stat ?dst ?w5 = (Inr (length bs), ?w5)"
    using path_stat_entry [of ?w5 ?dst d "File bs (m\<lparr>owned := True\<rparr>)"] by simp
  have run: "backup_with_cp db_path backup_path w =
     (Inr True,
      record_event (Logged INFO (''File-based backup completed: '' @ format_mb (length bs) @ '' MB'')) ?w5)"
    by (simp only: backup_with_cp_def Let_def and_then_logger and_then_path_exists
        path_exists_record_event ex1 ex2 sum.case simp_thms if_True if_False and_then_assoc
        and_then_mkdir_Inr [OF mk] and_then_unlink_Inr [OF ul] and_then_copy2_Inr [OF cp]
        and_then_stat_Inr [OF st] try_except_def prod.case and_then_ret ret_def)
  show ?thesis
    unfolding run by (simp add: record_event_def)
qed

subsection \<open>The copy strategy on the example world\<close>

lemmas run_defs =
  backup_with_cp_def try_except_def and_then_def ret_def logger_def path_mkdir_def
  mkdir_exist_ok_def os_mkdir_def path_is_dir_def path_unlink_def unlink_fs_def copy2_def
  copyfile_def samefile_def open_read_def open_write_def os_path_isdir_def path_stat_def
  is_dir_def record_event_def Let_def

lemma well_formed_example: "well_formed example_fs"
  by (auto simp: well_formed_def is_dir_def example_fs_def split: if_splits)

lemma coherent_example: "coherent example_world"
  using well_formed_example
  by (simp add: coherent_def example_world_def) (simp add: is_dir_def example_fs_def)







subsection \<open>What the calls can produce\<close>

lemma lookup_exn: "lookup w p = Inl e \<Longrightarrow> is_Exception e"
  using lookup_raises [of w p e] by auto

lemma yieldsD:
  assumes "yields m P" "m w = (r, w')"
  shows "case r of Inl e \<Rightarrow> is_Exception e | Inr a \<Rightarrow> P a"
    and "\<exists>es. trace w' = trace w @ es \<and> \<not> list_ex on_stdout es"
    and "clock w' = clock w" and "cwd w' = cwd w" and "execute w' = execute w"
  using assms unfolding yields_def by blast+

lemma yields_ret: "P a \<Longrightarrow> yields (ret a) P"
  by (simp add: yields_def ret_def)

lemma yields_logger: "yields (logger l msg) (\<lambda>_. True)"
  by (simp add: yields_def logger_def)

lemma yields_datetime_now: "yields datetime_now (\<lambda>_. True)"
  by (simp add: yields_def datetime_now_def)

lemma yields_path_resolve: "yields (path_resolve p) (\<lambda>_. True)"
  by (auto simp: yields_def path_resolve_def split: if_splits)

lemma yields_path_exists: "yields (path_exists p) (\<lambda>_. True)"
  using os_stat_raises
  by (auto simp: yields_def path_exists_def split: sum.splits if_splits)

lemma yields_path_is_dir: "yields (path_is_dir p) (\<lambda>_. True)"
  using os_stat_raises
  by (auto simp: yields_def path_is_dir_def split: sum.splits if_splits node.splits)

lemma yields_path_stat: "yields (path_stat p) (\<lambda>_. True)"
  using os_stat_raises
  by (auto simp: yields_def path_stat_def split: sum.splits)

lemma yields_os_mkdir: "yields (os_mkdir p) (\<lambda>_. True)"
  using lookup_exn
  by (auto simp: yields_def os_mkdir_def Let_def
      split: sum.splits option.splits node.splits if_splits)

lemma yields_path_unlink: "yields (path_unlink p) (\<lambda>_. True)"
  using lookup_exn
  by (auto simp: yields_def path_unlink_def unlink_fs_def Let_def
      split: sum.splits option.splits node.splits if_splits)

lemma copyfile_exn: "copyfile w src dst = Inl e \<Longrightarrow> is_Exception e"
  using lookup_exn [of w] os_stat_raises [of w]
  by (auto simp: copyfile_def samefile_def open_read_def open_write_def
      split: sum.splits option.splits node.splits if_splits prod.splits)

lemma yields_copy2: "yields (copy2 src dst) (\<lambda>_. True)"
  using copyfile_exn
  by (auto simp: yields_def copy2_def Let_def
      split: sum.splits option.splits node.splits if_splits prod.splits)

lemma yields_subprocess_run: "yields (subprocess_run argv input timeout) (\<lambda>_. True)"
  by (auto simp: yields_def subprocess_run_def Let_def
      split: process.splits option.splits if_splits)

lemma yields_and_then:
  assumes "yields m Q" and "\<And>a. Q a \<Longrightarrow> yields (f a) P"
  shows "yields (and_then m f) P"
  unfolding yields_def
proof (intro allI impI)
  fix w r w'
  assume run: "and_then m f w = (r, w')"
  obtain r0 w0 where m: "m w = (r0, w0)"
    by (cases "m w")
  note d0 = yieldsD [OF assms(1) m]
  show "(case r of Inl e \<Rightarrow> is_Exception e | Inr a \<Rightarrow> P a)
        \<and> (\<exists>es. trace w' = trace w @ es \<and> \<not> list_ex on_stdout es)
        \<and> clock w' = clock w \<and> cwd w' = cwd w \<and> execute w' = execute w"
  proof (cases r0)
    case (Inl e)
    with m run have "r = Inl e" "w' = w0"
      by (auto simp: and_then_def)
    with d0 Inl show ?thesis
      by simp
  next
    case (Inr a)
    with d0(1) have "Q a"
      by simp
    from run m Inr have "f a w0 = (r, w')"
      by (simp add: and_then_def)
    note d1 = yieldsD [OF assms(2) [OF \<open>Q a\<close>] this]
    from d0(2) d1(2) obtain es es' where "trace w0 = trace w @ es" "\<not> list_ex on_stdout es"
      "trace w' = trace w0 @ es'" "\<not> list_ex on_stdout es'"
      by blast
    then have "trace w' = trace w @ (es @ es') \<and> \<not> list_ex on_stdout (es @ es')"
      by simp
    then have "\<exists>es. trace w' = trace w @ es \<and> \<not> list_ex on_stdout es"
      by blast
    with d0 d1 show ?thesis
      by simp
  qed
qed

lemma yields_if: "yields m P \<Longrightarrow> yields n P \<Longrightarrow> yields (if c then m else n) P"
  by simp

lemma yields_weaken: "yields m P \<Longrightarrow> (\<And>a. P a \<Longrightarrow> Q a) \<Longrightarrow> yields m Q"
  unfolding yields_def by (auto split: sum.splits)

text \<open>A handler that catches every \<open>Exception\<close> leaves nothing to propagate.\<close>

lemma yields_try_except:
  assumes body: "yields body P"
    and handler: "\<And>e. yields (handler e) P"
  shows "yields (try_except body handler) P"
  unfolding yields_def
proof (intro allI impI)
  fix w r w'
  assume run: "try_except body handler w = (r, w')"
  obtain r0 w0 where b: "body w = (r0, w0)"
    by (cases "body w")
  note d0 = yieldsD [OF body b]
  show "(case r of Inl e \<Rightarrow> is_Exception e | Inr a \<Rightarrow> P a)
        \<and> (\<exists>es. trace w' = trace w @ es \<and> \<not> list_ex on_stdout es)
        \<and> clock w' = clock w \<and> cwd w' = cwd w \<and> execute w' = execute w"
  proof (cases r0)
    case (Inr a)
    with b run have "r = Inr a" "w' = w0"
      by (auto simp: try_except_def)
    with d0 Inr show ?thesis
      by simp
  next
    case (Inl e)
    with d0(1) have e: "is_Exception e"
      by simp
    with run b Inl have "handler e w0 = (r, w')"
      by (simp add: try_except_def)
    note d1 = yieldsD [OF handler this]
    from d0(2) d1(2) obtain es es' where "trace w0 = trace w @ es" "\<not> list_ex on_stdout es"
      "trace w' = trace w0 @ es'" "\<not> list_ex on_stdout es'"
      by blast
    then have "trace w' = trace w @ (es @ es') \<and> \<not> list_ex on_stdout (es @ es')"
      by simp
    then have "\<exists>es. trace w' = trace w @ es \<and> \<not> list_ex on_stdout es"
      by blast
    with d0 d1 show ?thesis
      by simp
  qed
qed

subsection \<open>What \<open>mkdir\<close> and \<open>subprocess.run\<close> can do\<close>

text \<open>
  \<open>mkdir\<close> touches nothing but the file system and the trace, to which it adds only
  \<open>mkdir\<close> events, the first for the path itself; when it returns, the path is a
  directory. \<open>subprocess.run\<close> adds one \<open>spawn\<close> event and waits no longer than its
  timeout. Both raise only exceptions derived from \<open>Exception\<close>.
\<close>

lemma path_is_dir_result: "path_is_dir p w = (fst (path_is_dir p w), w)"
  by (simp add: path_is_dir_def split: sum.splits node.splits)

lemma path_is_dir_exn: "fst (path_is_dir p w) = Inl e \<Longrightarrow> is_Exception e"
  using os_stat_raises [of w p]
  by (auto simp: path_is_dir_def split: sum.splits node.splits if_splits)

lemma os_mkdir_frame:
  assumes "os_mkdir p w = (r, w')"
  shows "cwd w' = cwd w \<and> clock w' = clock w \<and> execute w' = execute w \<and> waited w' = waited w
         \<and> trace w' = trace w @ [Mkdir p]
         \<and> (\<forall>e. r = Inl e \<longrightarrow> is_Exception e \<and> fs w' = fs w)
         \<and> (r = Inr () \<longrightarrow> fst (path_is_dir p w') = Inr True)"
proof (cases "lookup w p")
  case (Inl e)
  with assms lookup_exn [OF Inl] show ?thesis
    by (auto simp: os_mkdir_def Let_def)
next
  case (Inr l)
  show ?thesis
  proof (cases r)
    case (Inl e)
    with assms Inr show ?thesis
      by (auto simp: os_mkdir_def Let_def split: option.splits node.splits if_splits)
  next
    case r: (Inr u)
    with assms Inr have free: "fs w l = None"
      and w': "w' = (record_event (Mkdir p) w)\<lparr>fs := (fs w)(l \<mapsto> Dir full_access)\<rparr>"
      by (auto simp: os_mkdir_def Let_def split: option.splits node.splits if_splits)
    from free have "\<not> is_dir (fs w) l"
      by (simp add: is_dir_def)
    with Inr have "lookup w' p = Inr l"
      by (rule lookup_update) (simp_all add: w')
    then have "fst (path_is_dir p w') = Inr True"
      by (simp add: path_is_dir_def os_stat_def w')
    with w' r show ?thesis
      by simp
  qed
qed

lemma mkdir_exist_ok_frame:
  assumes "mkdir_exist_ok p w = (r, w')"
  shows "cwd w' = cwd w \<and> clock w' = clock w \<and> execute w' = execute w \<and> waited w' = waited w
         \<and> trace w' = trace w @ [Mkdir p]
         \<and> (\<forall>e. r = Inl e \<longrightarrow> is_Exception e)
         \<and> (r = Inr () \<longrightarrow> fst (path_is_dir p w') = Inr True)"
proof -
  obtain r0 w0 where o: "os_mkdir p w = (r0, w0)"
    by (cases "os_mkdir p w")
  note f = os_mkdir_frame [OF o]
  show ?thesis
  proof (cases r0)
    case (Inr u)
    with assms o f show ?thesis
      by (auto simp: mkdir_exist_ok_def)
  next
    case (Inl e)
    with f have e: "is_Exception e"
      by simp
    have d: "path_is_dir p w0 = (fst (path_is_dir p w0), w0)"
      by (rule path_is_dir_result)
    show ?thesis
    proof (cases "fst (path_is_dir p w0)")
      case e': (Inl e')
      from path_is_dir_exn [OF this] have "is_Exception e'" .
      with assms o Inl e f d e' show ?thesis
        by (auto simp: mkdir_exist_ok_def split: if_splits)
    next
      case (Inr found)
      with assms o Inl e f d show ?thesis
        by (auto simp: mkdir_exist_ok_def split: if_splits)
    qed
  qed
qed

lemma mkdir_parents_frame:
  "mkdir_parents a ns w = (r, w') \<Longrightarrow>
     cwd w' = cwd w \<and> clock w' = clock w \<and> execute w' = execute w \<and> waited w' = waited w
     \<and> (\<exists>es. trace w' = trace w @ Mkdir \<lparr>anchor = a, names = rev ns\<rparr> # es \<and> list_all is_mkdir es)
     \<and> (\<forall>e. r = Inl e \<longrightarrow> is_Exception e)
     \<and> (r = Inr () \<longrightarrow> fst (path_is_dir \<lparr>anchor = a, names = rev ns\<rparr> w') = Inr True)"
proof (induction ns arbitrary: w r w')
  case Nil
  from mkdir_exist_ok_frame [of "\<lparr>anchor = a, names = []\<rparr>" w r w'] Nil show ?case
    by simp
next
  case (Cons n ns)
  let ?p = "\<lparr>anchor = a, names = rev (n # ns)\<rparr>"
  obtain r0 w0 where o: "os_mkdir ?p w = (r0, w0)"
    by (cases "os_mkdir ?p w")
  note f0 = os_mkdir_frame [OF o]
  show ?case
  proof (cases r0)
    case (Inr u)
    with Cons.prems o f0 show ?thesis
      by auto
  next
    case (Inl e)
    with f0 have e: "is_Exception e"
      by simp
    show ?thesis
    proof (cases "e = FileNotFoundError")
      case False
      have d: "path_is_dir ?p w0 = (fst (path_is_dir ?p w0), w0)"
        by (rule path_is_dir_result)
      show ?thesis
      proof (cases "fst (path_is_dir ?p w0)")
        case e': (Inl e')
        from path_is_dir_exn [OF this] have "is_Exception e'" .
        with False Inl Cons.prems o f0 d e' e show ?thesis
          by (auto split: if_splits)
      next
        case (Inr found)
        with False Inl Cons.prems o f0 d e show ?thesis
          by (auto split: if_splits)
      qed
    next
      case True
      obtain r1 w1 where p: "mkdir_parents a ns w0 = (r1, w1)"
        by (cases "mkdir_parents a ns w0")
      note f1 = Cons.IH [OF p]
      show ?thesis
      proof (cases r1)
        case e1: (Inl e1)
        with True Inl Cons.prems o p have "r = Inl e1" "w' = w1"
          by auto
        with f0 f1 e1 show ?thesis
          by auto
      next
        case (Inr u1)
        obtain r2 w2 where q: "mkdir_exist_ok ?p w1 = (r2, w2)"
          by (cases "mkdir_exist_ok ?p w1")
        note f2 = mkdir_exist_ok_frame [OF q]
        from Inr True Inl Cons.prems o p q have rw: "r = r2" "w' = w2"
          by auto
        from f0 f1 f2 show ?thesis
          unfolding rw by auto
      qed
    qed
  qed
qed

lemma path_mkdir_frame:
  assumes "path_mkdir p w = (r, w')"
  shows "cwd w' = cwd w \<and> clock w' = clock w \<and> execute w' = execute w \<and> waited w' = waited w
     \<and> (\<exists>es. trace w' = trace w @ Mkdir p # es \<and> list_all is_mkdir es)
     \<and> (\<forall>e. r = Inl e \<longrightarrow> is_Exception e)
     \<and> (r = Inr () \<longrightarrow> fst (path_is_dir p w') = Inr True)"
proof -
  have p: "\<lparr>anchor = anchor p, names = rev (rev (names p))\<rparr> = p"
    by (cases p) simp
  from mkdir_parents_frame [of "anchor p" "rev (names p)" w r w'] assms show ?thesis
    unfolding p by (simp add: path_mkdir_def)
qed

lemma not_stdout_mkdir: "list_all is_mkdir es \<Longrightarrow> \<not> list_ex on_stdout es"
  by (induction es) (auto elim: is_mkdir.elims)

lemma yields_path_mkdir: "yields (path_mkdir p) (\<lambda>_. True)"
  unfolding yields_def
proof (intro allI impI)
  fix w r w'
  assume "path_mkdir p w = (r, w')"
  note f = path_mkdir_frame [OF this]
  from f obtain es where "trace w' = trace w @ Mkdir p # es" "list_all is_mkdir es"
    by blast
  with not_stdout_mkdir [of es]
  have "trace w' = trace w @ (Mkdir p # es) \<and> \<not> list_ex on_stdout (Mkdir p # es)"
    by simp
  then have "\<exists>es. trace w' = trace w @ es \<and> \<not> list_ex on_stdout es"
    by blast
  with f show "(case r of Inl e \<Rightarrow> is_Exception e | Inr a \<Rightarrow> True)
        \<and> (\<exists>es. trace w' = trace w @ es \<and> \<not> list_ex on_stdout es)
        \<and> clock w' = clock w \<and> cwd w' = cwd w \<and> execute w' = execute w"
    by (cases r) simp_all
qed

lemma subprocess_run_frame:
  assumes "subprocess_run argv input timeout w = (r, w')"
  shows "cwd w' = cwd w \<and> clock w' = clock w \<and> execute w' = execute w
     \<and> trace w' = trace w @ [Spawn argv input]
     \<and> waited w \<le> waited w' \<and> waited w' \<le> waited w + timeout
     \<and> (\<forall>e. r = Inl e \<longrightarrow> is_Exception e)"
  using assms
  by (auto simp: subprocess_run_def Let_def split: process.splits option.splits if_splits)

end
